theory Spec2Isabelle
  imports Complex_Main "HOL-Library.Word" "HOL-Library.Signed_Division" "HOL-Library.Sublist"
begin

section \<open>The Selenium Grid scaler of KEDA\<close>

text \<open>
  A shallow embedding of \<^verbatim>\<open>pkg/scalers/selenium_grid_scaler.go\<close>. The scaler asks a
  Selenium Grid for its queued session requests and its running sessions, counts those
  that match a configured browser, and divides by the number of sessions a node can hold.

  What the file calls from outside the repository is taken as a parameter:
  \<^verbatim>\<open>json.Marshal\<close>, \<^verbatim>\<open>json.Unmarshal\<close>, \<^verbatim>\<open>strconv.ParseBool\<close>, \<^verbatim>\<open>http.NewRequestWithContext\<close>
  and the HTTP client. Calls to the logger \<^verbatim>\<open>seleniumGridLog\<close> return nothing and change
  no variable of the scaler; they are left out.
\<close>

subsection \<open>Integers\<close>

text \<open>
  \<^verbatim>\<open>int64\<close> is a 64-bit word read in two's complement; \<open>+\<close> and \<open>-\<close> wrap around, as Go's
  do. Go's \<^verbatim>\<open>int\<close> is taken at 64 bits, its width on the platforms KEDA is built for, so the
  conversion \<^verbatim>\<open>int64(x)\<close> of an \<^verbatim>\<open>int\<close> is the identity.
\<close>

type_synonym int64 = "64 word"

text \<open>
  Go's \<^verbatim>\<open>/\<close> on signed integers truncates towards zero. (A zero divisor panics in Go; the
  one division of the scaler is guarded by \<^verbatim>\<open>gridMaxSession > 0\<close>.)
\<close>

definition div_int64 :: "int64 \<Rightarrow> int64 \<Rightarrow> int64" where
  "div_int64 a b = word_of_int (sint a sdiv sint b)"

subsection \<open>Errors\<close>

text \<open>
  A Go \<^verbatim>\<open>error\<close> is a value with a message. The constructor records which package made it:
  \<open>errorString\<close> is what \<^verbatim>\<open>errors.New\<close> and \<^verbatim>\<open>fmt.Errorf\<close> return, \<open>jsonError\<close> stands for
  the error types of \<^verbatim>\<open>encoding/json\<close>, \<open>numError\<close> for \<^verbatim>\<open>strconv\<close>'s, \<open>netError\<close> for those of
  \<^verbatim>\<open>net/http\<close>, \<^verbatim>\<open>net/url\<close> and \<^verbatim>\<open>io\<close>.
\<close>

datatype error =
    errorString string
  | jsonError string
  | numError string
  | netError string

fun Error :: "error \<Rightarrow> string" where
  "Error (errorString s) = s"
| "Error (jsonError s) = s"
| "Error (numError s) = s"
| "Error (netError s) = s"

subsection \<open>Data model\<close>

record seleniumGridScalerMetadata =
  url :: string
  browserName :: string
  targetValue :: int64
  browserVersion :: string
  unsafeSsl :: bool
  scalerIndex :: int64

text \<open>
  Of \<^verbatim>\<open>seleniumGridScaler\<close> the metadata is kept; the HTTP client is the parameter
  \<open>client_Do\<close> below and the metric type plays no part in the functions modelled.
\<close>

record seleniumGridScaler =
  metadata :: seleniumGridScalerMetadata

record grid =
  MaxSession :: int64

record seleniumSession =
  ID :: string
  Capabilities :: string
  NodeID :: string

record sessionsInfo =
  SessionQueueRequests :: "string list"
  Sessions :: "seleniumSession list"

record data =
  Grid :: grid
  SessionsInfo :: sessionsInfo

record seleniumResponse =
  Data :: data

record capability =
  BrowserName :: string
  BrowserVersion :: string

definition DefaultBrowserVersion :: string where
  "DefaultBrowserVersion = ''latest''"

text \<open>
  \<^verbatim>\<open>ScalerConfig\<close> is declared elsewhere in the package; the two fields read here are
  modelled.
\<close>

record ScalerConfig =
  TriggerMetadata :: "string \<rightharpoonup> string"
  ScalerIndex :: int64

subsection \<open>The world outside\<close>

record http_Request =
  Method :: string
  URL :: string
  RequestBody :: string

text \<open>\<open>Body\<close> is what \<^verbatim>\<open>ioutil.ReadAll(res.Body)\<close> gives.\<close>

record http_Response =
  StatusCode :: int64
  Body :: "error + string"

text \<open>
  \<open>json_Unmarshal_response\<close> and \<open>json_Unmarshal_capability\<close> are \<^verbatim>\<open>json.Unmarshal\<close> into a
  fresh \<^verbatim>\<open>seleniumResponse\<close> and a fresh \<^verbatim>\<open>capability\<close>: \<open>Inr\<close> the structure filled in,
  \<open>Inl\<close> the error.
\<close>

record externals =
  json_Marshal :: "(string \<times> string) list \<Rightarrow> error + string"
  http_NewRequestWithContext :: "string \<Rightarrow> string \<Rightarrow> string \<Rightarrow> error + http_Request"
  client_Do :: "http_Request \<Rightarrow> error + http_Response"
  json_Unmarshal_response :: "string \<Rightarrow> error + seleniumResponse"
  json_Unmarshal_capability :: "string \<Rightarrow> error + capability"

text \<open>\<^verbatim>\<open>strings.HasPrefix(s, prefix)\<close>, as the standard library writes it.\<close>

definition HasPrefix :: "string \<Rightarrow> string \<Rightarrow> bool" where
  "HasPrefix s pre = (length pre \<le> length s \<and> take (length pre) s = pre)"

subsection \<open>Counting\<close>

text \<open>The body of the loop over \<^verbatim>\<open>sessionQueueRequests\<close> (lines 219 to 230).\<close>

definition queue_body :: "externals \<Rightarrow> string \<Rightarrow> string \<Rightarrow> string \<Rightarrow> int64 \<Rightarrow> int64" where
  "queue_body ext bName bVersion sessionQueueRequest count =
     (case json_Unmarshal_capability ext sessionQueueRequest of
        Inr capability \<Rightarrow>
          if BrowserName capability = bName then
            if HasPrefix (BrowserVersion capability) bVersion then count + 1
            else if BrowserVersion capability = [] \<and> bVersion = DefaultBrowserVersion
              then count + 1
            else count
          else count
      | Inl err \<Rightarrow> count)"

fun queue_loop :: "externals \<Rightarrow> string \<Rightarrow> string \<Rightarrow> string list \<Rightarrow> int64 \<Rightarrow> int64" where
  "queue_loop ext bName bVersion [] count = count"
| "queue_loop ext bName bVersion (sessionQueueRequest # rest) count =
     queue_loop ext bName bVersion rest
       (queue_body ext bName bVersion sessionQueueRequest count)"

text \<open>The body of the loop over \<^verbatim>\<open>sessions\<close> (lines 235 to 246).\<close>

definition session_body ::
  "externals \<Rightarrow> string \<Rightarrow> string \<Rightarrow> seleniumSession \<Rightarrow> int64 \<Rightarrow> int64" where
  "session_body ext bName bVersion session count =
     (case json_Unmarshal_capability ext (Capabilities session) of
        Inr capability \<Rightarrow>
          if BrowserName capability = bName then
            if HasPrefix (BrowserVersion capability) bVersion then count + 1
            else if bVersion = DefaultBrowserVersion then count + 1
            else count
          else count
      | Inl err \<Rightarrow> count)"

fun session_loop ::
  "externals \<Rightarrow> string \<Rightarrow> string \<Rightarrow> seleniumSession list \<Rightarrow> int64 \<Rightarrow> int64" where
  "session_loop ext bName bVersion [] count = count"
| "session_loop ext bName bVersion (session # rest) count =
     session_loop ext bName bVersion rest (session_body ext bName bVersion session count)"

text \<open>The value of \<^verbatim>\<open>count\<close> at line 249, after both loops.\<close>

definition matchedCount ::
  "externals \<Rightarrow> string \<Rightarrow> string \<Rightarrow> string list \<Rightarrow> seleniumSession list \<Rightarrow> int64" where
  "matchedCount ext bName bVersion sessionQueueRequests sessions =
     session_loop ext bName bVersion sessions
       (queue_loop ext bName bVersion sessionQueueRequests 0)"

text \<open>Lines 249 to 253.\<close>

definition normalize :: "int64 \<Rightarrow> int64 \<Rightarrow> int64" where
  "normalize gridMaxSession count =
     (if 0 <s gridMaxSession
      then div_int64 (count + gridMaxSession - 1) gridMaxSession
      else count)"

text \<open>The function from line 217 on, once the body is decoded.\<close>

definition countDecoded ::
  "externals \<Rightarrow> string \<Rightarrow> string \<Rightarrow> seleniumResponse \<Rightarrow> int64" where
  "countDecoded ext bName bVersion response =
     normalize (MaxSession (Grid (Data response)))
       (matchedCount ext bName bVersion
          (SessionQueueRequests (SessionsInfo (Data response)))
          (Sessions (SessionsInfo (Data response))))"

definition getCountFromSeleniumResponse ::
  "externals \<Rightarrow> string \<Rightarrow> string \<Rightarrow> string \<Rightarrow> int64 \<times> error option" where
  "getCountFromSeleniumResponse ext b bName bVersion =
     (case json_Unmarshal_response ext b of
        Inl err \<Rightarrow> (0, Some err)
      | Inr response \<Rightarrow> (countDecoded ext bName bVersion response, None))"

subsection \<open>Fetching\<close>

text \<open>\<^verbatim>\<open>fmt.Sprintf("%d", n)\<close>: the decimal digits of \<open>n\<close>, after a minus sign when \<open>n < 0\<close>.\<close>

fun dec_digits :: "nat \<Rightarrow> string" where
  "dec_digits n =
     (if n < 10 then [char_of (48 + n)]
      else dec_digits (n div 10) @ [char_of (48 + n mod 10)])"

declare dec_digits.simps [simp del]

definition fmt_d :: "int \<Rightarrow> string" where
  "fmt_d i = (if i < 0 then CHR ''-'' # dec_digits (nat (- i)) else dec_digits (nat i))"

definition query :: "(string \<times> string) list" where
  "query = [(''query'',
     ''{ grid { maxSession }, sessionsInfo { sessionQueueRequests, sessions { id, capabilities, nodeId } } }'')]"

definition getSessionsCount :: "externals \<Rightarrow> seleniumGridScaler \<Rightarrow> int64 \<times> error option" where
  "getSessionsCount ext s =
     (case json_Marshal ext query of
        Inl err \<Rightarrow> (- 1, Some err)
      | Inr body \<Rightarrow>
     (case http_NewRequestWithContext ext ''POST'' (url (metadata s)) body of
        Inl err \<Rightarrow> (- 1, Some err)
      | Inr req \<Rightarrow>
     (case client_Do ext req of
        Inl err \<Rightarrow> (- 1, Some err)
      | Inr res \<Rightarrow>
     if StatusCode res \<noteq> 200
     then (- 1, Some (errorString (''selenium grid returned '' @ fmt_d (sint (StatusCode res)))))
     else
     (case Body res of
        Inl err \<Rightarrow> (- 1, Some err)
      | Inr b \<Rightarrow>
     (case getCountFromSeleniumResponse ext b
             (browserName (metadata s)) (browserVersion (metadata s)) of
        (v, Some err) \<Rightarrow> (- 1, Some err)
      | (v, None) \<Rightarrow> (v, None))))))"

definition IsActive :: "externals \<Rightarrow> seleniumGridScaler \<Rightarrow> bool \<times> error option" where
  "IsActive ext s =
     (case getSessionsCount ext s of
        (v, Some err) \<Rightarrow> (False, Some err)
      | (v, None) \<Rightarrow> (0 <s v, None))"

subsection \<open>Configuration\<close>

text \<open>
  \<^verbatim>\<open>parseSeleniumGridScalerMetadata\<close> returns a pointer to the metadata or an error, never
  both: \<open>Inr\<close> the metadata, \<open>Inl\<close> the error. \<open>ParseBool\<close> is \<^verbatim>\<open>strconv.ParseBool\<close>.
\<close>

definition parseSeleniumGridScalerMetadata ::
  "(string \<Rightarrow> error + bool) \<Rightarrow> ScalerConfig \<Rightarrow> error + seleniumGridScalerMetadata" where
  "parseSeleniumGridScalerMetadata ParseBool config =
     (let meta = \<lparr>url = [], browserName = [], targetValue = 1, browserVersion = [],
                  unsafeSsl = False, scalerIndex = 0\<rparr>
      in
     (case TriggerMetadata config ''url'' of
        None \<Rightarrow> Inl (errorString ''no selenium grid url given in metadata'')
      | Some val \<Rightarrow>
     (let meta = meta\<lparr>url := val\<rparr> in
     (case TriggerMetadata config ''browserName'' of
        None \<Rightarrow> Inl (errorString ''no browser name given in metadata'')
      | Some val \<Rightarrow>
     (let meta = meta\<lparr>browserName := val\<rparr>;
          meta = (case TriggerMetadata config ''browserVersion'' of
                    Some val \<Rightarrow>
                      (if val \<noteq> [] then meta\<lparr>browserVersion := val\<rparr>
                       else meta\<lparr>browserVersion := DefaultBrowserVersion\<rparr>)
                  | None \<Rightarrow> meta\<lparr>browserVersion := DefaultBrowserVersion\<rparr>)
      in
     (case TriggerMetadata config ''unsafeSsl'' of
        Some val \<Rightarrow>
          (case ParseBool val of
             Inl err \<Rightarrow> Inl (errorString (''error parsing unsafeSsl: '' @ Error err))
           | Inr parsedVal \<Rightarrow>
               Inr (meta\<lparr>unsafeSsl := parsedVal, scalerIndex := ScalerIndex config\<rparr>))
      | None \<Rightarrow> Inr (meta\<lparr>scalerIndex := ScalerIndex config\<rparr>)))))))"

subsection \<open>A sample grid\<close>

text \<open>
  Concrete surroundings for evaluating the scaler. \<open>sample_Unmarshal_capability\<close> agrees
  with \<^verbatim>\<open>json.Unmarshal\<close> on the three capability strings listed and on \<open>''not json''\<close>,
  which is all it is applied to.
\<close>

definition chrome96 :: string where
  \<open>chrome96 = ''{"browserName":"chrome","browserVersion":"96.0.4664.45"}''\<close>

definition chrome_any :: string where
  \<open>chrome_any = ''{"browserName":"chrome"}''\<close>

definition firefox95 :: string where
  \<open>firefox95 = ''{"browserName":"firefox","browserVersion":"95.0"}''\<close>

definition sample_Unmarshal_capability :: "string \<Rightarrow> error + capability" where
  "sample_Unmarshal_capability s =
     (if s = chrome96
        then Inr \<lparr>BrowserName = ''chrome'', BrowserVersion = ''96.0.4664.45''\<rparr>
      else if s = chrome_any
        then Inr \<lparr>BrowserName = ''chrome'', BrowserVersion = []\<rparr>
      else if s = firefox95
        then Inr \<lparr>BrowserName = ''firefox'', BrowserVersion = ''95.0''\<rparr>
      else Inl (jsonError ''invalid character''))"

text \<open>
  A grid that answers every request with the status \<open>status\<close> and the body \<open>answer\<close>;
  \<open>bodies\<close> lists the bodies that decode, each with the response it decodes to. Below it
  is given the JSON text \<open>sample_body m queue running\<close> with the response
  \<open>sample_response m queue running\<close>, which is what \<^verbatim>\<open>json.Unmarshal\<close> decodes that
  text to.
\<close>

definition sample_ext ::
  "int64 \<Rightarrow> string \<Rightarrow> (string \<times> seleniumResponse) list \<Rightarrow> externals" where
  "sample_ext status answer bodies =
     \<lparr>json_Marshal = (\<lambda>m. Inr ''query''),
      http_NewRequestWithContext =
        (\<lambda>method u body. Inr \<lparr>Method = method, URL = u, RequestBody = body\<rparr>),
      client_Do = (\<lambda>req. Inr \<lparr>StatusCode = status, Body = Inr answer\<rparr>),
      json_Unmarshal_response =
        (\<lambda>b. case map_of bodies b of
               Some response \<Rightarrow> Inr response
             | None \<Rightarrow> Inl (jsonError ''unexpected end of JSON input'')),
      json_Unmarshal_capability = sample_Unmarshal_capability\<rparr>"

definition sample_response ::
  "int64 \<Rightarrow> string list \<Rightarrow> string list \<Rightarrow> seleniumResponse" where
  "sample_response maxSession queue running =
     \<lparr>Data = \<lparr>Grid = \<lparr>MaxSession = maxSession\<rparr>,
              SessionsInfo = \<lparr>SessionQueueRequests = queue,
                Sessions = map (\<lambda>c. \<lparr>ID = ''id'', Capabilities = c, NodeID = ''node''\<rparr>) running\<rparr>\<rparr>\<rparr>"

text \<open>
  The JSON text of \<open>sample_response maxSession queue running\<close>, with \<open>maxSession\<close> in
  decimal digits: a capability string is a JSON string inside the body, its quotes and
  backslashes escaped.
\<close>

definition json_string :: "string \<Rightarrow> string" where
  \<open>json_string s =
     CHR ''"'' #
     concat (map (\<lambda>c. if c = CHR ''"'' \<or> c = CHR 0x5C then [CHR 0x5C, c] else [c]) s) @
     [CHR ''"'']\<close>

fun join_commas :: "string list \<Rightarrow> string" where
  "join_commas [] = []"
| "join_commas [x] = x"
| "join_commas (x # y # zs) = x @ '','' @ join_commas (y # zs)"

definition session_json :: "string \<Rightarrow> string" where
  \<open>session_json c = ''{"id":"id","capabilities":'' @ json_string c @ '',"nodeId":"node"}''\<close>

definition sample_body :: "string \<Rightarrow> string list \<Rightarrow> string list \<Rightarrow> string" where
  \<open>sample_body maxSession queue running =
     ''{"data":{"grid":{"maxSession":'' @ maxSession @
     ''},"sessionsInfo":{"sessionQueueRequests":['' @ join_commas (map json_string queue) @
     ''],"sessions":['' @ join_commas (map session_json running) @ '']}}}''\<close>

definition sample_scaler :: "string \<Rightarrow> string \<Rightarrow> seleniumGridScaler" where
  "sample_scaler bName bVersion =
     \<lparr>metadata = \<lparr>url = ''http://grid:4444/graphql'', browserName = bName, targetValue = 1,
                  browserVersion = bVersion, unsafeSsl = False, scalerIndex = 0\<rparr>\<rparr>"

text \<open>Answers of the grid used as concrete inputs: the body and what it decodes to.\<close>

definition body_with_malformed :: string where
  "body_with_malformed = sample_body ''2'' [chrome_any, ''not json'', chrome_any] [chrome96]"

definition grid_with_malformed :: seleniumResponse where
  "grid_with_malformed = sample_response 2 [chrome_any, ''not json'', chrome_any] [chrome96]"

definition body_without_malformed :: string where
  "body_without_malformed = sample_body ''2'' [chrome_any, chrome_any] [chrome96]"

definition grid_without_malformed :: seleniumResponse where
  "grid_without_malformed = sample_response 2 [chrome_any, chrome_any] [chrome96]"

definition two_bodies :: "(string \<times> seleniumResponse) list" where
  "two_bodies = [(body_with_malformed, grid_with_malformed),
                 (body_without_malformed, grid_without_malformed)]"

definition body_all_malformed :: string where
  "body_all_malformed = sample_body ''2'' [''not json'', ''not json''] [''not json'']"

definition grid_all_malformed :: seleniumResponse where
  "grid_all_malformed = sample_response 2 [''not json'', ''not json''] [''not json'']"

text \<open>
  Two responses of a grid that reports a capacity close to the largest \<^verbatim>\<open>int64\<close>:
  \<open>2 ^ 63 - 1\<close> with two queued requests, \<open>2 ^ 63 - 2\<close> with one queued request and two
  running sessions.
\<close>

definition body_huge_capacity :: string where
  "body_huge_capacity = sample_body ''9223372036854775807'' [chrome_any, chrome_any] []"

definition grid_huge_capacity :: seleniumResponse where
  "grid_huge_capacity = sample_response 0x7FFFFFFFFFFFFFFF [chrome_any, chrome_any] []"

definition body_huge_capacity_running :: string where
  "body_huge_capacity_running =
     sample_body ''9223372036854775806'' [chrome96] [chrome96, chrome96]"

definition grid_huge_capacity_running :: seleniumResponse where
  "grid_huge_capacity_running =
     sample_response 0x7FFFFFFFFFFFFFFE [chrome96] [chrome96, chrome96]"

definition ext_huge_capacity :: externals where
  "ext_huge_capacity =
     sample_ext 200 body_huge_capacity [(body_huge_capacity, grid_huge_capacity)]"

definition ext_huge_capacity_running :: externals where
  "ext_huge_capacity_running =
     sample_ext 200 body_huge_capacity_running
       [(body_huge_capacity_running, grid_huge_capacity_running)]"

text \<open>
  A trigger configuration whose \<open>browserVersion\<close> is present and empty, and a
  \<open>ParseBool\<close> that agrees with \<^verbatim>\<open>strconv.ParseBool\<close> on \<open>''true''\<close> and \<open>''false''\<close>.
\<close>

definition config_empty_version :: ScalerConfig where
  "config_empty_version =
     \<lparr>TriggerMetadata = [''url'' \<mapsto> ''http://grid:4444/graphql'', ''browserName'' \<mapsto> ''chrome'',
                         ''browserVersion'' \<mapsto> []],
      ScalerIndex = 0\<rparr>"

definition sample_ParseBool :: "string \<Rightarrow> error + bool" where
  "sample_ParseBool s =
     (if s = ''true'' then Inr True
      else if s = ''false'' then Inr False
      else Inl (numError ''invalid syntax''))"

text \<open>The number a string of decimal digits stands for; it reads \<open>dec_digits\<close> back.\<close>

definition digits_value :: "string \<Rightarrow> nat" where
  "digits_value cs = foldl (\<lambda>a c. 10 * a + (of_char c - 48)) 0 cs"

section \<open>Properties\<close>

subsection \<open>The loops add up\<close>

text \<open>
  Each loop body adds 0 or 1 to the counter, whatever the counter holds, so a loop started
  at \<open>c\<close> ends at \<open>c\<close> plus what it ends at when started at 0, and an entry anywhere in
  a list contributes what its body adds to 0.
\<close>

lemma queue_body_add: "queue_body ext bn bv q c = c + queue_body ext bn bv q 0"
  by (simp add: queue_body_def split: sum.splits)

lemma queue_loop_add: "queue_loop ext bn bv qs c = c + queue_loop ext bn bv qs 0"
proof (induction qs arbitrary: c)
  case Nil
  show ?case by simp
next
  case (Cons q qs)
  have "queue_loop ext bn bv (q # qs) c = queue_body ext bn bv q c + queue_loop ext bn bv qs 0"
    using Cons.IH [of "queue_body ext bn bv q c"] by simp
  also have "\<dots> = c + (queue_body ext bn bv q 0 + queue_loop ext bn bv qs 0)"
    using queue_body_add [of ext bn bv q c] by (simp add: add.assoc)
  also have "queue_body ext bn bv q 0 + queue_loop ext bn bv qs 0 = queue_loop ext bn bv (q # qs) 0"
    using Cons.IH [of "queue_body ext bn bv q 0"] by simp
  finally show ?case .
qed

lemma queue_loop_append:
  "queue_loop ext bn bv (xs @ ys) c = queue_loop ext bn bv ys (queue_loop ext bn bv xs c)"
  by (induction xs arbitrary: c) simp_all

lemma queue_loop_insert:
  "queue_loop ext bn bv (xs @ q # ys) 0 = queue_loop ext bn bv (xs @ ys) 0 + queue_body ext bn bv q 0"
proof -
  let ?a = "queue_loop ext bn bv xs 0"
  have "queue_loop ext bn bv (xs @ q # ys) 0 = queue_loop ext bn bv ys (queue_body ext bn bv q ?a)"
    by (simp add: queue_loop_append)
  also have "\<dots> = queue_body ext bn bv q ?a + queue_loop ext bn bv ys 0"
    by (rule queue_loop_add)
  also have "\<dots> = (?a + queue_body ext bn bv q 0) + queue_loop ext bn bv ys 0"
    using queue_body_add [of ext bn bv q ?a] by simp
  also have "\<dots> = (?a + queue_loop ext bn bv ys 0) + queue_body ext bn bv q 0"
    by (simp add: add.assoc add.commute)
  also have "?a + queue_loop ext bn bv ys 0 = queue_loop ext bn bv (xs @ ys) 0"
    using queue_loop_add [of ext bn bv ys ?a] by (simp add: queue_loop_append)
  finally show ?thesis .
qed

lemma session_body_add: "session_body ext bn bv s c = c + session_body ext bn bv s 0"
  by (simp add: session_body_def split: sum.splits)

lemma session_loop_add: "session_loop ext bn bv ss c = c + session_loop ext bn bv ss 0"
proof (induction ss arbitrary: c)
  case Nil
  show ?case by simp
next
  case (Cons s ss)
  have "session_loop ext bn bv (s # ss) c = session_body ext bn bv s c + session_loop ext bn bv ss 0"
    using Cons.IH [of "session_body ext bn bv s c"] by simp
  also have "\<dots> = c + (session_body ext bn bv s 0 + session_loop ext bn bv ss 0)"
    using session_body_add [of ext bn bv s c] by (simp add: add.assoc)
  also have "session_body ext bn bv s 0 + session_loop ext bn bv ss 0 = session_loop ext bn bv (s # ss) 0"
    using Cons.IH [of "session_body ext bn bv s 0"] by simp
  finally show ?case .
qed

lemma session_loop_append:
  "session_loop ext bn bv (xs @ ys) c = session_loop ext bn bv ys (session_loop ext bn bv xs c)"
  by (induction xs arbitrary: c) simp_all

lemma session_loop_insert:
  "session_loop ext bn bv (xs @ s # ys) 0 = session_loop ext bn bv (xs @ ys) 0 + session_body ext bn bv s 0"
proof -
  let ?a = "session_loop ext bn bv xs 0"
  have "session_loop ext bn bv (xs @ s # ys) 0 = session_loop ext bn bv ys (session_body ext bn bv s ?a)"
    by (simp add: session_loop_append)
  also have "\<dots> = session_body ext bn bv s ?a + session_loop ext bn bv ys 0"
    by (rule session_loop_add)
  also have "\<dots> = (?a + session_body ext bn bv s 0) + session_loop ext bn bv ys 0"
    using session_body_add [of ext bn bv s ?a] by simp
  also have "\<dots> = (?a + session_loop ext bn bv ys 0) + session_body ext bn bv s 0"
    by (simp add: add.assoc add.commute)
  also have "?a + session_loop ext bn bv ys 0 = session_loop ext bn bv (xs @ ys) 0"
    using session_loop_add [of ext bn bv ys ?a] by (simp add: session_loop_append)
  finally show ?thesis .
qed

lemma matchedCount_sum:
  "matchedCount ext bn bv qs ss = queue_loop ext bn bv qs 0 + session_loop ext bn bv ss 0"
  unfolding matchedCount_def by (rule session_loop_add)

lemma matchedCount_queue_insert:
  "matchedCount ext bn bv (xs @ q # ys) ss =
   matchedCount ext bn bv (xs @ ys) ss + queue_body ext bn bv q 0"
  by (simp add: matchedCount_sum queue_loop_insert add.assoc add.commute)

lemma matchedCount_session_insert:
  "matchedCount ext bn bv qs (xs @ s # ys) =
   matchedCount ext bn bv qs (xs @ ys) + session_body ext bn bv s 0"
  by (simp add: matchedCount_sum session_loop_insert add.assoc)

text \<open>\<open>HasPrefix s pre\<close> says that \<open>pre\<close> is a prefix of \<open>s\<close>.\<close>

lemma HasPrefix_prefix: "HasPrefix s pre = prefix pre s"
  unfolding HasPrefix_def prefix_def
  by (metis append_eq_conv_conj append_take_drop_id le_add1 length_append)

subsection \<open>The sample grid decodes as listed\<close>

lemma sample_chrome96:
  "json_Unmarshal_capability (sample_ext st a r) chrome96 =
     Inr \<lparr>BrowserName = ''chrome'', BrowserVersion = ''96.0.4664.45''\<rparr>"
  by (simp add: sample_ext_def sample_Unmarshal_capability_def)

lemma sample_chrome_any:
  "json_Unmarshal_capability (sample_ext st a r) chrome_any =
     Inr \<lparr>BrowserName = ''chrome'', BrowserVersion = []\<rparr>"
  by (simp add: sample_ext_def sample_Unmarshal_capability_def chrome_any_def chrome96_def)

lemma sample_firefox95:
  "json_Unmarshal_capability (sample_ext st a r) firefox95 =
     Inr \<lparr>BrowserName = ''firefox'', BrowserVersion = ''95.0''\<rparr>"
  by (simp add: sample_ext_def sample_Unmarshal_capability_def chrome_any_def chrome96_def firefox95_def)

lemma sample_not_json:
  "json_Unmarshal_capability (sample_ext st a r) ''not json'' = Inl (jsonError ''invalid character'')"
  by (simp add: sample_ext_def sample_Unmarshal_capability_def chrome_any_def chrome96_def firefox95_def)

lemma bodies_differ: "body_with_malformed \<noteq> body_without_malformed"
  by (simp add: body_with_malformed_def body_without_malformed_def sample_body_def
      json_string_def chrome_any_def)

lemma two_bodies_decode:
  "json_Unmarshal_response (sample_ext st a two_bodies) body_with_malformed =
     Inr grid_with_malformed"
  "json_Unmarshal_response (sample_ext st a two_bodies) body_without_malformed =
     Inr grid_without_malformed"
  using bodies_differ by (simp_all add: sample_ext_def two_bodies_def)

lemma all_malformed_decode:
  "json_Unmarshal_response
     (sample_ext st a [(body_all_malformed, grid_all_malformed)]) body_all_malformed =
     Inr grid_all_malformed"
  by (simp add: sample_ext_def)

lemma sample_fetch:
  "json_Marshal (sample_ext st a bs) query = Inr ''query''"
  "http_NewRequestWithContext (sample_ext st a bs) ''POST'' u ''query'' =
     Inr \<lparr>Method = ''POST'', URL = u, RequestBody = ''query''\<rparr>"
  "client_Do (sample_ext st a bs) rq = Inr \<lparr>StatusCode = st, Body = Inr a\<rparr>"
  by (simp_all add: sample_ext_def)

subsection \<open>Matching rules\<close>

text \<open>
  C1. A queued request whose capability string decodes adds one to the matched count if
  and only if its browser name equals the target name and either the target version is a
  prefix of its browser version (\<^verbatim>\<open>strings.HasPrefix(entry, target)\<close>), or its browser
  version is empty and the target version is \<open>''latest''\<close>. Otherwise it adds nothing. The
  count is compared with the count of the same queue without the entry.
\<close>

theorem queued_request_matching_rule:
  assumes "json_Unmarshal_capability ext q = Inr cap"
  shows "matchedCount ext bName bVersion (before @ q # after) sessions =
         matchedCount ext bName bVersion (before @ after) sessions +
         (if BrowserName cap = bName \<and>
             (HasPrefix (BrowserVersion cap) bVersion \<or>
              BrowserVersion cap = [] \<and> bVersion = ''latest'')
          then 1 else 0)"
proof -
  have "queue_body ext bName bVersion q 0 =
        (if BrowserName cap = bName \<and>
             (HasPrefix (BrowserVersion cap) bVersion \<or>
              BrowserVersion cap = [] \<and> bVersion = ''latest'')
          then 1 else 0)"
    using assms by (simp add: queue_body_def DefaultBrowserVersion_def)
  then show ?thesis
    by (simp only: matchedCount_queue_insert)
qed

theorem queued_request_matching_rule_witness:
  "json_Unmarshal_capability (sample_ext 200 [] []) chrome_any =
     Inr \<lparr>BrowserName = ''chrome'', BrowserVersion = []\<rparr>
   \<and> matchedCount (sample_ext 200 [] []) ''chrome'' ''latest''
        ([firefox95] @ chrome_any # [''not json'']) [] =
     matchedCount (sample_ext 200 [] []) ''chrome'' ''latest'' ([firefox95] @ [''not json'']) [] + 1"
  using queued_request_matching_rule [OF sample_chrome_any [of 200 "[]" "[]"],
      where bName = "''chrome''" and bVersion = "''latest''" and before = "[firefox95]"
        and after = "[''not json'']" and sessions = "[]"]
  by (simp add: sample_chrome_any HasPrefix_def)

text \<open>
  C2. An active session whose capability string decodes adds one to the matched count if
  and only if its browser name equals the target name and either the target version is a
  prefix of its browser version or the target version is \<open>''latest''\<close>, whatever the
  session's version. So a session of the target browser with a non-empty version that does
  not start with \<open>''latest''\<close> is counted for the target \<open>''latest''\<close>, where the queue loop
  leaves a request with the same capabilities out.
\<close>

theorem active_session_matching_rule:
  assumes "json_Unmarshal_capability ext (Capabilities session) = Inr cap"
  shows "matchedCount ext bName bVersion queue (before @ session # after) =
         matchedCount ext bName bVersion queue (before @ after) +
         (if BrowserName cap = bName \<and>
             (HasPrefix (BrowserVersion cap) bVersion \<or> bVersion = ''latest'')
          then 1 else 0)
       \<and> (BrowserName cap = bName \<and> BrowserVersion cap \<noteq> [] \<and>
            \<not> HasPrefix (BrowserVersion cap) ''latest'' \<longrightarrow>
            session_body ext bName ''latest'' session count = count + 1 \<and>
            queue_body ext bName ''latest'' (Capabilities session) count = count)"
proof -
  have "session_body ext bName bVersion session 0 =
        (if BrowserName cap = bName \<and>
             (HasPrefix (BrowserVersion cap) bVersion \<or> bVersion = ''latest'')
          then 1 else 0)"
    using assms by (simp add: session_body_def DefaultBrowserVersion_def)
  then have "matchedCount ext bName bVersion queue (before @ session # after) =
         matchedCount ext bName bVersion queue (before @ after) +
         (if BrowserName cap = bName \<and>
             (HasPrefix (BrowserVersion cap) bVersion \<or> bVersion = ''latest'')
          then 1 else 0)"
    by (simp only: matchedCount_session_insert)
  moreover have "BrowserName cap = bName \<and> BrowserVersion cap \<noteq> [] \<and>
            \<not> HasPrefix (BrowserVersion cap) ''latest'' \<longrightarrow>
            session_body ext bName ''latest'' session count = count + 1 \<and>
            queue_body ext bName ''latest'' (Capabilities session) count = count"
    using assms by (simp add: session_body_def queue_body_def DefaultBrowserVersion_def)
  ultimately show ?thesis by blast
qed

theorem active_session_matching_rule_witness:
  "json_Unmarshal_capability (sample_ext 200 [] [])
     (Capabilities \<lparr>ID = ''1'', Capabilities = chrome96, NodeID = ''n''\<rparr>) =
     Inr \<lparr>BrowserName = ''chrome'', BrowserVersion = ''96.0.4664.45''\<rparr>
   \<and> matchedCount (sample_ext 200 [] []) ''chrome'' ''latest'' []
        ([] @ \<lparr>ID = ''1'', Capabilities = chrome96, NodeID = ''n''\<rparr> # []) =
     matchedCount (sample_ext 200 [] []) ''chrome'' ''latest'' [] ([] @ []) + 1
   \<and> session_body (sample_ext 200 [] []) ''chrome'' ''latest''
        \<lparr>ID = ''1'', Capabilities = chrome96, NodeID = ''n''\<rparr> 0 = 0 + 1
   \<and> queue_body (sample_ext 200 [] []) ''chrome'' ''latest'' chrome96 0 = 0"
  using active_session_matching_rule [of "sample_ext 200 [] []"
      "\<lparr>ID = ''1'', Capabilities = chrome96, NodeID = ''n''\<rparr>"
      "\<lparr>BrowserName = ''chrome'', BrowserVersion = ''96.0.4664.45''\<rparr>"
      "''chrome''" "''latest''" "[]" "[]" "[]" 0]
  by (simp add: sample_chrome96 HasPrefix_def)

text \<open>
  C5. An entry of the target browser with the version \<open>''96.0.4664.45''\<close> is counted for
  the target version \<open>''96''\<close> and is not counted for the target version \<open>''97''\<close>, as a
  queued request and as an active session alike.
\<close>

theorem prefix_match_96:
  assumes "json_Unmarshal_capability ext q =
             Inr \<lparr>BrowserName = bName, BrowserVersion = ''96.0.4664.45''\<rparr>"
  shows "matchedCount ext bName ''96'' (before @ q # after) sessions =
           matchedCount ext bName ''96'' (before @ after) sessions + 1
       \<and> matchedCount ext bName ''97'' (before @ q # after) sessions =
           matchedCount ext bName ''97'' (before @ after) sessions
       \<and> (Capabilities s = q \<longrightarrow>
           matchedCount ext bName ''96'' queue (before' @ s # after') =
             matchedCount ext bName ''96'' queue (before' @ after') + 1
         \<and> matchedCount ext bName ''97'' queue (before' @ s # after') =
             matchedCount ext bName ''97'' queue (before' @ after'))"
proof -
  have "queue_body ext bName ''96'' q 0 = 1" "queue_body ext bName ''97'' q 0 = 0"
    using assms by (simp_all add: queue_body_def HasPrefix_def DefaultBrowserVersion_def)
  moreover have "Capabilities s = q \<Longrightarrow> session_body ext bName ''96'' s 0 = 1"
    "Capabilities s = q \<Longrightarrow> session_body ext bName ''97'' s 0 = 0"
    using assms by (simp_all add: session_body_def HasPrefix_def DefaultBrowserVersion_def)
  ultimately show ?thesis
    by (simp add: matchedCount_queue_insert matchedCount_session_insert)
qed

theorem prefix_match_96_witness:
  "json_Unmarshal_capability (sample_ext 200 [] []) chrome96 =
     Inr \<lparr>BrowserName = ''chrome'', BrowserVersion = ''96.0.4664.45''\<rparr>
   \<and> matchedCount (sample_ext 200 [] []) ''chrome'' ''96'' ([] @ chrome96 # []) [] =
       matchedCount (sample_ext 200 [] []) ''chrome'' ''96'' ([] @ []) [] + 1
   \<and> matchedCount (sample_ext 200 [] []) ''chrome'' ''97'' ([] @ chrome96 # []) [] =
       matchedCount (sample_ext 200 [] []) ''chrome'' ''97'' ([] @ []) []
   \<and> matchedCount (sample_ext 200 [] []) ''chrome'' ''96'' []
         ([] @ \<lparr>ID = ''1'', Capabilities = chrome96, NodeID = ''n''\<rparr> # []) =
       matchedCount (sample_ext 200 [] []) ''chrome'' ''96'' [] ([] @ []) + 1
   \<and> matchedCount (sample_ext 200 [] []) ''chrome'' ''97'' []
         ([] @ \<lparr>ID = ''1'', Capabilities = chrome96, NodeID = ''n''\<rparr> # []) =
       matchedCount (sample_ext 200 [] []) ''chrome'' ''97'' [] ([] @ [])"
  using prefix_match_96 [OF sample_chrome96 [of 200 "[]" "[]"],
      where before = "[]" and after = "[]" and sessions = "[]" and queue = "[]"
        and s = "\<lparr>ID = ''1'', Capabilities = chrome96, NodeID = ''n''\<rparr>"
        and before' = "[]" and after' = "[]"]
  by (simp add: sample_chrome96)

subsection \<open>Entries that do not decode\<close>

lemma queue_loop_all_malformed:
  "\<forall>q \<in> set qs. isl (json_Unmarshal_capability ext q) \<Longrightarrow> queue_loop ext bn bv qs c = c"
  by (induction qs arbitrary: c) (auto simp: queue_body_def split: sum.splits)

lemma session_loop_all_malformed:
  "\<forall>s \<in> set ss. isl (json_Unmarshal_capability ext (Capabilities s)) \<Longrightarrow>
   session_loop ext bn bv ss c = c"
  by (induction ss arbitrary: c) (auto simp: session_body_def split: sum.splits)

text \<open>
  C4. A queued request whose capability string does not decode counts as if it were not
  there: a response with such an entry in its queue and the same response without the
  entry give the same result.
\<close>

theorem malformed_queued_request_ignored:
  assumes bad: "json_Unmarshal_capability ext q = Inl err"
    and r: "json_Unmarshal_response ext b = Inr r"
    and r': "json_Unmarshal_response ext b' = Inr r'"
    and queue: "SessionQueueRequests (SessionsInfo (Data r)) = before @ q # after"
    and queue': "SessionQueueRequests (SessionsInfo (Data r')) = before @ after"
    and rest: "Sessions (SessionsInfo (Data r')) = Sessions (SessionsInfo (Data r))"
      "MaxSession (Grid (Data r')) = MaxSession (Grid (Data r))"
  shows "getCountFromSeleniumResponse ext b bName bVersion =
         getCountFromSeleniumResponse ext b' bName bVersion"
proof -
  have "queue_body ext bName bVersion q 0 = 0"
    using bad by (simp add: queue_body_def)
  then have "matchedCount ext bName bVersion (before @ q # after) (Sessions (SessionsInfo (Data r)))
      = matchedCount ext bName bVersion (before @ after) (Sessions (SessionsInfo (Data r)))"
    by (simp add: matchedCount_queue_insert)
  then have "countDecoded ext bName bVersion r = countDecoded ext bName bVersion r'"
    using queue queue' rest by (simp add: countDecoded_def)
  then show ?thesis
    using r r' by (simp add: getCountFromSeleniumResponse_def)
qed

theorem malformed_queued_request_ignored_witness:
  "json_Unmarshal_capability (sample_ext 200 [] two_bodies) ''not json'' =
     Inl (jsonError ''invalid character'')
   \<and> json_Unmarshal_response (sample_ext 200 [] two_bodies) body_with_malformed =
       Inr grid_with_malformed
   \<and> json_Unmarshal_response (sample_ext 200 [] two_bodies) body_without_malformed =
       Inr grid_without_malformed
   \<and> SessionQueueRequests (SessionsInfo (Data grid_with_malformed)) =
       [chrome_any] @ ''not json'' # [chrome_any]
   \<and> SessionQueueRequests (SessionsInfo (Data grid_without_malformed)) =
       [chrome_any] @ [chrome_any]
   \<and> getCountFromSeleniumResponse (sample_ext 200 [] two_bodies)
         body_with_malformed ''chrome'' ''latest'' =
     getCountFromSeleniumResponse (sample_ext 200 [] two_bodies)
         body_without_malformed ''chrome'' ''latest''"
proof -
  have q: "SessionQueueRequests (SessionsInfo (Data grid_with_malformed)) =
       [chrome_any] @ ''not json'' # [chrome_any]"
    by (simp add: grid_with_malformed_def sample_response_def)
  have q': "SessionQueueRequests (SessionsInfo (Data grid_without_malformed)) =
       [chrome_any] @ [chrome_any]"
    by (simp add: grid_without_malformed_def sample_response_def)
  have rest: "Sessions (SessionsInfo (Data grid_without_malformed)) =
       Sessions (SessionsInfo (Data grid_with_malformed))"
    "MaxSession (Grid (Data grid_without_malformed)) = MaxSession (Grid (Data grid_with_malformed))"
    by (simp_all add: grid_with_malformed_def grid_without_malformed_def sample_response_def)
  show ?thesis
    using malformed_queued_request_ignored [OF sample_not_json two_bodies_decode q q' rest]
      sample_not_json two_bodies_decode q q'
    by simp
qed

subsection \<open>Normalization\<close>

lemma sint_int64_of_int:
  "- (2 ^ 63) \<le> k \<Longrightarrow> k < 2 ^ 63 \<Longrightarrow> sint (word_of_int k :: int64) = k"
  by (simp add: sint_sbintrunc' signed_take_bit_int_eq_self)

lemma sdiv_nonneg_pos: "0 \<le> k \<Longrightarrow> 0 < l \<Longrightarrow> k sdiv l = k div (l::int)"
  by (simp add: signed_divide_int_def sgn_if)

lemma ceiling_div_int:
  assumes b: "0 < (b::int)"
  shows "(a + b - 1) div b = \<lceil>real_of_int a / real_of_int b\<rceil>"
proof -
  have up: "(a + b - 1) div b = (if a mod b = 0 then a div b else a div b + 1)"
  proof (cases "a mod b = 0")
    case True
    have "a + b - 1 = b * (a div b) + (b - 1)"
      using True mult_div_mod_eq [of b a] by linarith
    then have "(a + b - 1) div b = a div b"
      by (rule int_div_pos_eq [where r = "b - 1"]) (use b in simp_all)
    with True show ?thesis by simp
  next
    case False
    have r: "0 < a mod b" "a mod b < b"
      using False b pos_mod_sign [of b a] pos_mod_bound [of b a] by linarith+
    have "a + b - 1 = b * (a div b + 1) + (a mod b - 1)"
      using mult_div_mod_eq [of b a] by (simp add: algebra_simps)
    then have "(a + b - 1) div b = a div b + 1"
      by (rule int_div_pos_eq [where r = "a mod b - 1"]) (use r in simp_all)
    with False show ?thesis by simp
  qed
  have "\<lceil>real_of_int a / real_of_int b\<rceil> = - (- a div b)"
    by (simp add: ceiling_divide_eq_div)
  also have "\<dots> = (if a mod b = 0 then a div b else a div b + 1)"
    using b by (simp add: zdiv_zminus1_eq_if)
  finally show ?thesis using up by simp
qed

text \<open>
  As long as \<^verbatim>\<open>count + gridMaxSession - 1\<close> stays below \<open>2 ^ 63\<close>, the division gives the
  ceiling of \<open>count / gridMaxSession\<close>.
\<close>

lemma normalize_in_range:
  assumes m: "0 <s m" and c: "0 \<le> sint c" and fits: "sint c + sint m - 1 < 2 ^ 63"
  shows "sint (normalize m c) = (sint c + sint m - 1) div sint m"
proof -
  have mpos: "0 < sint m"
    using m by (simp add: word_sless_alt)
  let ?k = "sint c + sint m - 1"
  have k0: "0 \<le> ?k"
    using c mpos by linarith
  have "c + m - 1 = (word_of_int ?k :: int64)"
    by simp
  then have sk: "sint (c + m - 1) = ?k"
    using sint_int64_of_int [of ?k] k0 fits by simp
  have d0: "0 \<le> ?k div sint m"
    using k0 mpos by (simp add: pos_imp_zdiv_nonneg_iff)
  have "?k div sint m \<le> ?k"
  proof (cases "?k = 0")
    case True
    then show ?thesis by simp
  next
    case False
    then have "0 < ?k" using k0 by linarith
    then show ?thesis by (rule int_div_le_self)
  qed
  then have d1: "?k div sint m < 2 ^ 63"
    using fits by linarith
  have "normalize m c = word_of_int (?k div sint m)"
    using m sk k0 mpos by (simp add: normalize_def div_int64_def sdiv_nonneg_pos)
  then show ?thesis
    using sint_int64_of_int [of "?k div sint m"] d0 d1 by simp
qed

lemma normalize_ceiling:
  assumes "0 <s m" and "0 \<le> sint c" and "sint c + sint m - 1 < 2 ^ 63"
  shows "sint (normalize m c) = \<lceil>real_of_int (sint c) / real_of_int (sint m)\<rceil>"
proof -
  have "0 < sint m"
    using assms(1) by (simp add: word_sless_alt)
  then show ?thesis
    using normalize_in_range [OF assms] ceiling_div_int [of "sint m" "sint c"] by simp
qed

lemma normalize_zero: "normalize m 0 = 0"
proof (cases "0 <s m")
  case True
  then have "sint (normalize m 0) = (sint m - 1) div sint m"
    using normalize_in_range [of m 0] sint_lt [of m] by simp
  moreover have "0 < sint m"
    using True by (simp add: word_sless_alt)
  ultimately have "sint (normalize m 0) = sint (0 :: int64)"
    by (simp add: div_pos_pos_trivial)
  then show ?thesis
    by (rule signed_word_eqI)
next
  case False
  then show ?thesis by (simp add: normalize_def)
qed

text \<open>
  C3. For \<^verbatim>\<open>gridMaxSession <= 0\<close> the matched count is returned as it is
  (\<open>normalize_def\<close>), and for \<^verbatim>\<open>gridMaxSession > 0\<close> the result is the ceiling of the
  quotient as long as \<^verbatim>\<open>count + gridMaxSession - 1\<close> fits \<^verbatim>\<open>int64\<close> (\<open>normalize_ceiling\<close>).
  It does not always fit: for a grid that reports \<^verbatim>\<open>maxSession\<close> \<open>= 2 ^ 63 - 1\<close> and two
  matching queued requests the sum wraps around to \<open>- (2 ^ 63)\<close> and the function returns
  \<open>- 1\<close>, where the ceiling of the quotient is 1.
\<close>

theorem normalization_wraps_around:
  "json_Unmarshal_response ext_huge_capacity body_huge_capacity = Inr grid_huge_capacity
   \<and> 0 <s MaxSession (Grid (Data grid_huge_capacity))
   \<and> matchedCount ext_huge_capacity ''chrome'' ''latest''
        (SessionQueueRequests (SessionsInfo (Data grid_huge_capacity)))
        (Sessions (SessionsInfo (Data grid_huge_capacity))) = 2
   \<and> sint (MaxSession (Grid (Data grid_huge_capacity))) = 9223372036854775807
   \<and> getCountFromSeleniumResponse ext_huge_capacity body_huge_capacity ''chrome'' ''latest'' =
       (- 1, None)
   \<and> \<lceil>(2 :: real) / 9223372036854775807\<rceil> = 1"
proof -
  have decode:
    "json_Unmarshal_response ext_huge_capacity body_huge_capacity = Inr grid_huge_capacity"
    by (simp add: ext_huge_capacity_def sample_ext_def)
  have capability: "json_Unmarshal_capability ext_huge_capacity chrome_any =
      Inr \<lparr>BrowserName = ''chrome'', BrowserVersion = []\<rparr>"
    unfolding ext_huge_capacity_def by (rule sample_chrome_any)
  have "0 <s MaxSession (Grid (Data grid_huge_capacity))"
    by (simp add: grid_huge_capacity_def sample_response_def word_sless_alt)
  moreover have "matchedCount ext_huge_capacity ''chrome'' ''latest''
        (SessionQueueRequests (SessionsInfo (Data grid_huge_capacity)))
        (Sessions (SessionsInfo (Data grid_huge_capacity))) = 2"
    by (simp add: grid_huge_capacity_def capability sample_response_def matchedCount_def
        queue_body_def HasPrefix_def DefaultBrowserVersion_def)
  moreover have "sint (MaxSession (Grid (Data grid_huge_capacity))) = 9223372036854775807"
    by (simp add: grid_huge_capacity_def sample_response_def)
  moreover have
    "getCountFromSeleniumResponse ext_huge_capacity body_huge_capacity ''chrome'' ''latest'' =
       (- 1, None)"
    unfolding getCountFromSeleniumResponse_def decode
    by (simp add: grid_huge_capacity_def capability countDecoded_def sample_response_def
        matchedCount_def queue_body_def HasPrefix_def DefaultBrowserVersion_def
        normalize_def div_int64_def word_sless_alt)
  moreover have "\<lceil>(2 :: real) / 9223372036854775807\<rceil> = 1"
    by simp
  ultimately show ?thesis
    using decode by blast
qed

text \<open>
  C6. Once the body is decoded, \<^verbatim>\<open>getCountFromSeleniumResponse\<close> returns no error, whatever
  the capability strings decode to; when none of them decodes, it returns 0 and no error.
\<close>

theorem getCount_never_fails:
  assumes "json_Unmarshal_response ext b = Inr response"
  shows "snd (getCountFromSeleniumResponse ext b bName bVersion) = None \<and>
         ((\<forall>q \<in> set (SessionQueueRequests (SessionsInfo (Data response))).
              isl (json_Unmarshal_capability ext q)) \<and>
          (\<forall>s \<in> set (Sessions (SessionsInfo (Data response))).
              isl (json_Unmarshal_capability ext (Capabilities s))) \<longrightarrow>
          getCountFromSeleniumResponse ext b bName bVersion = (0, None))"
  using assms
  by (simp add: getCountFromSeleniumResponse_def countDecoded_def matchedCount_def
      queue_loop_all_malformed session_loop_all_malformed normalize_zero)

theorem getCount_never_fails_witness:
  "json_Unmarshal_response (sample_ext 200 [] [(body_all_malformed, grid_all_malformed)])
       body_all_malformed =
     Inr grid_all_malformed
   \<and> getCountFromSeleniumResponse (sample_ext 200 [] [(body_all_malformed, grid_all_malformed)])
        body_all_malformed ''chrome'' ''latest'' = (0, None)"
  using getCount_never_fails [OF all_malformed_decode [of 200 "[]"],
      where bName = "''chrome''" and bVersion = "''latest''"]
    all_malformed_decode [of 200 "[]"] sample_not_json
  by (simp add: grid_all_malformed_def sample_response_def)

subsection \<open>Printing a status code\<close>

lemma digit_char_value: "d < 10 \<Longrightarrow> of_char (char_of (48 + d)) - 48 = (d::nat)"
  by simp

lemma digits_value_dec_digits: "digits_value (dec_digits n) = n"
proof (induction n rule: dec_digits.induct)
  case (1 n)
  show ?case
  proof (cases "n < 10")
    case True
    then show ?thesis
      by (subst dec_digits.simps) (simp add: digits_value_def)
  next
    case False
    have "digits_value (dec_digits n) =
          10 * digits_value (dec_digits (n div 10)) + (of_char (char_of (48 + n mod 10)) - 48)"
      using False by (subst dec_digits.simps) (simp add: digits_value_def)
    also have "\<dots> = 10 * (n div 10) + n mod 10"
      using "1.IH" [OF False] digit_char_value [of "n mod 10"] by simp
    finally show ?thesis by simp
  qed
qed

lemma dec_digits_inj: "dec_digits m = dec_digits n \<Longrightarrow> m = n"
  by (metis digits_value_dec_digits)

lemma digit_not_minus: "d < 10 \<Longrightarrow> char_of (48 + d) \<noteq> CHR ''-''" for d :: nat
proof
  assume d: "d < 10" and eq: "char_of (48 + d) = CHR ''-''"
  have "of_char (char_of (48 + d)) = 48 + d"
    using d by simp
  moreover have "of_char (char_of (48 + d)) = (45::nat)"
    by (simp only: eq) simp
  ultimately show False by simp
qed

lemma dec_digits_chars: "c \<in> set (dec_digits n) \<Longrightarrow> c \<noteq> CHR ''-''"
proof (induction n rule: dec_digits.induct)
  case (1 n)
  show ?case
  proof (cases "n < 10")
    case True
    with "1.prems" digit_not_minus [of n] show ?thesis
      by (subst (asm) dec_digits.simps) simp
  next
    case False
    with "1.prems" "1.IH" digit_not_minus [of "n mod 10"] show ?thesis
      by (subst (asm) dec_digits.simps) auto
  qed
qed

lemma dec_digits_no_minus: "dec_digits n \<noteq> CHR ''-'' # cs"
proof
  assume "dec_digits n = CHR ''-'' # cs"
  then have "CHR ''-'' \<in> set (dec_digits n)" by simp
  then show False using dec_digits_chars by blast
qed

text \<open>Different numbers print differently.\<close>

lemma fmt_d_inj:
  assumes "fmt_d i = fmt_d j"
  shows "i = j"
proof -
  have neg: "i < 0 \<longleftrightarrow> j < 0"
  proof (rule ccontr)
    assume "\<not> (i < 0 \<longleftrightarrow> j < 0)"
    then consider "i < 0" "\<not> j < 0" | "j < 0" "\<not> i < 0" by blast
    then show False
    proof cases
      case 1
      then have "dec_digits (nat j) = CHR ''-'' # dec_digits (nat (- i))"
        using assms by (simp add: fmt_d_def)
      then show False by (simp add: dec_digits_no_minus)
    next
      case 2
      then have "dec_digits (nat i) = CHR ''-'' # dec_digits (nat (- j))"
        using assms by (simp add: fmt_d_def)
      then show False by (simp add: dec_digits_no_minus)
    qed
  qed
  show ?thesis
  proof (cases "i < 0")
    case True
    then have "dec_digits (nat (- i)) = dec_digits (nat (- j))"
      using assms neg by (simp add: fmt_d_def)
    then have "nat (- i) = nat (- j)" by (rule dec_digits_inj)
    then show ?thesis using True neg by linarith
  next
    case False
    then have "dec_digits (nat i) = dec_digits (nat j)"
      using assms neg by (simp add: fmt_d_def)
    then have "nat i = nat j" by (rule dec_digits_inj)
    then show ?thesis using False neg by linarith
  qed
qed

subsection \<open>Bounds of the result\<close>

lemma queue_body_zero_or_one:
  "queue_body ext bn bv q 0 = 0 \<or> queue_body ext bn bv q 0 = 1"
  by (simp add: queue_body_def split: sum.splits)

lemma session_body_zero_or_one:
  "session_body ext bn bv s 0 = 0 \<or> session_body ext bn bv s 0 = 1"
  by (simp add: session_body_def split: sum.splits)

lemma queue_loop_count: "\<exists>n \<le> length qs. queue_loop ext bn bv qs 0 = of_nat n"
proof (induction qs)
  case Nil
  show ?case by simp
next
  case (Cons q qs)
  then obtain n where n: "n \<le> length qs" "queue_loop ext bn bv qs 0 = of_nat n"
    by blast
  have step: "queue_loop ext bn bv (q # qs) 0 = queue_body ext bn bv q 0 + of_nat n"
    using queue_loop_add [of ext bn bv qs "queue_body ext bn bv q 0"] n(2) by simp
  consider "queue_body ext bn bv q 0 = 0" | "queue_body ext bn bv q 0 = 1"
    using queue_body_zero_or_one by blast
  then show ?case
  proof cases
    case 1
    with step n(1) show ?thesis
      by (intro exI [of _ n]) simp
  next
    case 2
    with step n(1) show ?thesis
      by (intro exI [of _ "Suc n"]) simp
  qed
qed

lemma session_loop_count: "\<exists>n \<le> length ss. session_loop ext bn bv ss 0 = of_nat n"
proof (induction ss)
  case Nil
  show ?case by simp
next
  case (Cons s ss)
  then obtain n where n: "n \<le> length ss" "session_loop ext bn bv ss 0 = of_nat n"
    by blast
  have step: "session_loop ext bn bv (s # ss) 0 = session_body ext bn bv s 0 + of_nat n"
    using session_loop_add [of ext bn bv ss "session_body ext bn bv s 0"] n(2) by simp
  consider "session_body ext bn bv s 0 = 0" | "session_body ext bn bv s 0 = 1"
    using session_body_zero_or_one by blast
  then show ?case
  proof cases
    case 1
    with step n(1) show ?thesis
      by (intro exI [of _ n]) simp
  next
    case 2
    with step n(1) show ?thesis
      by (intro exI [of _ "Suc n"]) simp
  qed
qed

text \<open>
  A Go slice holds fewer than \<open>2 ^ 63\<close> elements, and two slices of strings and of
  sessions held in memory together do; under that bound the counter does not wrap.
\<close>

lemma matchedCount_bounds:
  assumes "length qs + length ss < 2 ^ 63"
  shows "0 \<le> sint (matchedCount ext bn bv qs ss) \<and>
         sint (matchedCount ext bn bv qs ss) \<le> int (length qs + length ss)"
proof -
  obtain a where a: "a \<le> length qs" "queue_loop ext bn bv qs 0 = of_nat a"
    using queue_loop_count by blast
  obtain b where b: "b \<le> length ss" "session_loop ext bn bv ss 0 = of_nat b"
    using session_loop_count by blast
  have "matchedCount ext bn bv qs ss = word_of_int (int (a + b))"
    by (simp add: matchedCount_sum a(2) b(2))
  moreover have "int (a + b) < 2 ^ 63"
    using a(1) b(1) assms by (simp add: of_nat_less_numeral_power_cancel_iff)
  ultimately have "sint (matchedCount ext bn bv qs ss) = int (a + b)"
    using sint_int64_of_int [of "int (a + b)"] by simp
  then show ?thesis
    using a(1) b(1) by simp
qed

lemma normalize_bounds:
  assumes c: "0 \<le> sint c" and fits: "0 <s m \<longrightarrow> sint c + sint m - 1 < 2 ^ 63"
  shows "0 \<le> sint (normalize m c) \<and> sint (normalize m c) \<le> sint c"
proof (cases "0 <s m")
  case True
  then have m: "0 < sint m"
    by (simp add: word_sless_alt)
  have eq: "sint (normalize m c) = (sint c + sint m - 1) div sint m"
    using normalize_in_range [OF True c] fits True by simp
  have "sint c * 1 \<le> sint c * sint m"
    using c m by (intro mult_left_mono) simp_all
  then have le: "sint c + sint m - 1 \<le> sint m * sint c + (sint m - 1)"
    by (simp add: algebra_simps)
  have "(sint m * sint c + (sint m - 1)) div sint m = sint c"
    by (rule int_div_pos_eq [where r = "sint m - 1"]) (use m in simp_all)
  then have "(sint c + sint m - 1) div sint m \<le> sint c"
    using zdiv_mono1 [OF le m] by simp
  moreover have "0 \<le> (sint c + sint m - 1) div sint m"
    using c m by (simp add: pos_imp_zdiv_nonneg_iff)
  ultimately show ?thesis
    using eq by simp
next
  case False
  then show ?thesis
    using c by (simp add: normalize_def)
qed

lemma countDecoded_bounds:
  assumes len: "length (SessionQueueRequests (SessionsInfo (Data r))) +
                length (Sessions (SessionsInfo (Data r))) < 2 ^ 63"
    and fits: "0 <s MaxSession (Grid (Data r)) \<longrightarrow>
               sint (matchedCount ext bn bv (SessionQueueRequests (SessionsInfo (Data r)))
                       (Sessions (SessionsInfo (Data r)))) +
               sint (MaxSession (Grid (Data r))) - 1 < 2 ^ 63"
  shows "0 \<le> sint (countDecoded ext bn bv r) \<and>
         sint (countDecoded ext bn bv r) \<le>
           int (length (SessionQueueRequests (SessionsInfo (Data r))) +
                length (Sessions (SessionsInfo (Data r))))"
proof -
  let ?c = "matchedCount ext bn bv (SessionQueueRequests (SessionsInfo (Data r)))
              (Sessions (SessionsInfo (Data r)))"
  have c: "0 \<le> sint ?c"
    "sint ?c \<le> int (length (SessionQueueRequests (SessionsInfo (Data r))) +
                     length (Sessions (SessionsInfo (Data r))))"
    using matchedCount_bounds [OF len] by simp_all
  have "0 \<le> sint (normalize (MaxSession (Grid (Data r))) ?c) \<and>
        sint (normalize (MaxSession (Grid (Data r))) ?c) \<le> sint ?c"
    using c(1) fits by (rule normalize_bounds)
  then show ?thesis
    using c(2) by (simp add: countDecoded_def)
qed

lemma countDecoded_no_entries:
  assumes "SessionQueueRequests (SessionsInfo (Data r)) = []"
    and "Sessions (SessionsInfo (Data r)) = []"
  shows "countDecoded ext bn bv r = 0"
  using assms by (simp add: countDecoded_def matchedCount_def normalize_zero)

text \<open>
  C9. Every entry adds 0 or 1 to the counter (\<open>queue_body_zero_or_one\<close>,
  \<open>session_body_zero_or_one\<close>), a response with no entry gives 0
  (\<open>countDecoded_no_entries\<close>), and the result lies between 0 and the number of entries as
  long as \<^verbatim>\<open>count + gridMaxSession - 1\<close> fits \<^verbatim>\<open>int64\<close> (\<open>countDecoded_bounds\<close>). Where it
  does not fit the result leaves the bounds: with \<^verbatim>\<open>maxSession\<close> \<open>= 2 ^ 63 - 2\<close>, one
  matching queued request and two matching sessions, three entries in all, the function
  returns \<open>- 1\<close>.
\<close>

theorem count_below_zero:
  "json_Unmarshal_response ext_huge_capacity_running body_huge_capacity_running =
     Inr grid_huge_capacity_running
   \<and> length (SessionQueueRequests (SessionsInfo (Data grid_huge_capacity_running))) +
       length (Sessions (SessionsInfo (Data grid_huge_capacity_running))) = 3
   \<and> getCountFromSeleniumResponse ext_huge_capacity_running body_huge_capacity_running
         ''chrome'' ''96'' = (- 1, None)
   \<and> (- 1 :: int64) <s 0"
proof -
  have decode:
    "json_Unmarshal_response ext_huge_capacity_running body_huge_capacity_running =
       Inr grid_huge_capacity_running"
    by (simp add: ext_huge_capacity_running_def sample_ext_def)
  have capability: "json_Unmarshal_capability ext_huge_capacity_running chrome96 =
      Inr \<lparr>BrowserName = ''chrome'', BrowserVersion = ''96.0.4664.45''\<rparr>"
    unfolding ext_huge_capacity_running_def by (rule sample_chrome96)
  have "length (SessionQueueRequests (SessionsInfo (Data grid_huge_capacity_running))) +
       length (Sessions (SessionsInfo (Data grid_huge_capacity_running))) = 3"
    by (simp add: grid_huge_capacity_running_def sample_response_def)
  moreover have
    "getCountFromSeleniumResponse ext_huge_capacity_running body_huge_capacity_running
       ''chrome'' ''96'' = (- 1, None)"
    unfolding getCountFromSeleniumResponse_def decode
    by (simp add: grid_huge_capacity_running_def capability countDecoded_def
        sample_response_def matchedCount_def queue_body_def session_body_def HasPrefix_def
        DefaultBrowserVersion_def normalize_def div_int64_def word_sless_alt)
  moreover have "(- 1 :: int64) <s 0"
    by (simp add: word_sless_alt)
  ultimately show ?thesis
    using decode by blast
qed

subsection \<open>Fetching\<close>

lemma undecodable_body_error:
  assumes marshal: "json_Marshal ext query = Inr body"
    and request: "http_NewRequestWithContext ext ''POST'' (url (metadata s)) body = Inr req"
    and response: "client_Do ext req = Inr res"
    and status: "StatusCode res = 200"
    and read: "Body res = Inr b"
    and decode: "json_Unmarshal_response ext b = Inl err"
  shows "getSessionsCount ext s = (- 1, Some err)"
  using assms by (simp add: getSessionsCount_def getCountFromSeleniumResponse_def)

lemma fmt_d_503: "fmt_d 503 = ''503''"
  by code_simp

text \<open>
  C7. When the grid answers with a status other than 200, \<^verbatim>\<open>getSessionsCount\<close> returns
  \<open>- 1\<close> and the error \<^verbatim>\<open>selenium grid returned <status>\<close>. The message determines the
  status code; the result does not depend on how bodies and capability strings decode, so
  nothing is counted; and the error is none of \<^verbatim>\<open>encoding/json\<close>'s, which is what a body
  that does not decode gives (\<open>undecodable_body_error\<close>).
\<close>

theorem non_200_status_error:
  assumes marshal: "json_Marshal ext query = Inr body"
    and request: "http_NewRequestWithContext ext ''POST'' (url (metadata s)) body = Inr req"
    and response: "client_Do ext req = Inr res"
    and status: "StatusCode res \<noteq> 200"
  shows "getSessionsCount ext s =
           (- 1, Some (errorString (''selenium grid returned '' @ fmt_d (sint (StatusCode res)))))
       \<and> (\<forall>code. ''selenium grid returned '' @ fmt_d (sint code) =
                  ''selenium grid returned '' @ fmt_d (sint (StatusCode res)) \<longrightarrow>
                  code = StatusCode res)
       \<and> (\<forall>f g. getSessionsCount
                  (ext\<lparr>json_Unmarshal_response := f, json_Unmarshal_capability := g\<rparr>) s =
                getSessionsCount ext s)
       \<and> (\<forall>m. snd (getSessionsCount ext s) \<noteq> Some (jsonError m))"
proof -
  let ?err = "errorString (''selenium grid returned '' @ fmt_d (sint (StatusCode res)))"
  have result: "getSessionsCount ext s = (- 1, Some ?err)"
    using assms by (simp add: getSessionsCount_def)
  have carried: "code = StatusCode res"
    if "''selenium grid returned '' @ fmt_d (sint code) =
        ''selenium grid returned '' @ fmt_d (sint (StatusCode res))" for code
  proof -
    from that have "fmt_d (sint code) = fmt_d (sint (StatusCode res))"
      by simp
    then have "sint code = sint (StatusCode res)"
      by (rule fmt_d_inj)
    then show ?thesis
      by (rule signed_word_eqI)
  qed
  have independent: "getSessionsCount
      (ext\<lparr>json_Unmarshal_response := f, json_Unmarshal_capability := g\<rparr>) s =
      getSessionsCount ext s" for f g
    using assms by (simp add: getSessionsCount_def)
  have "snd (getSessionsCount ext s) \<noteq> Some (jsonError m)" for m
    by (simp add: result)
  with result carried independent show ?thesis
    by blast
qed

theorem non_200_status_error_witness:
  "StatusCode \<lparr>StatusCode = 503 :: int64, Body = Inr body_with_malformed\<rparr> \<noteq> 200
   \<and> getSessionsCount (sample_ext 503 body_with_malformed two_bodies) (sample_scaler ''chrome'' ''latest'') =
       (- 1, Some (errorString ''selenium grid returned 503''))"
proof -
  let ?ext = "sample_ext 503 body_with_malformed two_bodies"
  let ?s = "sample_scaler ''chrome'' ''latest''"
  let ?req = "\<lparr>Method = ''POST'', URL = url (metadata ?s), RequestBody = ''query''\<rparr>"
  let ?res = "\<lparr>StatusCode = 503 :: int64, Body = Inr body_with_malformed\<rparr>"
  have marshal: "json_Marshal ?ext query = Inr ''query''"
    by (rule sample_fetch)
  have request: "http_NewRequestWithContext ?ext ''POST'' (url (metadata ?s)) ''query'' = Inr ?req"
    by (rule sample_fetch)
  have response: "client_Do ?ext ?req = Inr ?res"
    by (rule sample_fetch)
  have status: "StatusCode ?res \<noteq> 200"
    by simp
  show ?thesis
    using non_200_status_error [OF marshal request response status] fmt_d_503 status
    by simp
qed

lemma sample_fetch_count:
  "getSessionsCount (sample_ext 200 body_with_malformed two_bodies) (sample_scaler ''chrome'' ''latest'') = (2, None)"
  by (simp add: getSessionsCount_def sample_fetch sample_scaler_def two_bodies_decode
      getCountFromSeleniumResponse_def countDecoded_def grid_with_malformed_def
      sample_response_def matchedCount_def queue_body_def session_body_def
      sample_chrome96 sample_chrome_any sample_not_json HasPrefix_def DefaultBrowserVersion_def
      normalize_def div_int64_def word_sless_alt)

text \<open>
  C8. When \<^verbatim>\<open>getSessionsCount\<close> returns \<open>v\<close> and no error, \<^verbatim>\<open>IsActive\<close> returns \<open>v > 0\<close>,
  \<open>v\<close> read as a signed integer, and no error; when it returns an error, \<^verbatim>\<open>IsActive\<close>
  returns false and that error.
\<close>

theorem IsActive_derivation:
  "(getSessionsCount ext s = (v, None) \<longrightarrow> IsActive ext s = (0 < sint v, None)) \<and>
   (getSessionsCount ext s = (v, Some err) \<longrightarrow> IsActive ext s = (False, Some err))"
proof (intro conjI impI)
  assume "getSessionsCount ext s = (v, None)"
  then have "IsActive ext s = (0 <s v, None)"
    by (simp add: IsActive_def)
  then show "IsActive ext s = (0 < sint v, None)"
    by (simp add: word_sless_alt)
next
  assume "getSessionsCount ext s = (v, Some err)"
  then show "IsActive ext s = (False, Some err)"
    by (simp add: IsActive_def)
qed

lemma sample_fetch_unavailable:
  "getSessionsCount (sample_ext 503 body_with_malformed two_bodies)
     (sample_scaler ''chrome'' ''latest'') =
   (- 1, Some (errorString ''selenium grid returned 503''))"
  using fmt_d_503 by (simp add: getSessionsCount_def sample_fetch)

theorem IsActive_derivation_witness:
  "getSessionsCount (sample_ext 200 body_with_malformed two_bodies)
     (sample_scaler ''chrome'' ''latest'') = (2, None)
   \<and> IsActive (sample_ext 200 body_with_malformed two_bodies)
       (sample_scaler ''chrome'' ''latest'') = (True, None)
   \<and> getSessionsCount (sample_ext 503 body_with_malformed two_bodies)
       (sample_scaler ''chrome'' ''latest'') =
       (- 1, Some (errorString ''selenium grid returned 503''))
   \<and> IsActive (sample_ext 503 body_with_malformed two_bodies)
       (sample_scaler ''chrome'' ''latest'') =
       (False, Some (errorString ''selenium grid returned 503''))"
  using IsActive_derivation [of "sample_ext 200 body_with_malformed two_bodies"
      "sample_scaler ''chrome'' ''latest''" 2]
    IsActive_derivation [of "sample_ext 503 body_with_malformed two_bodies"
      "sample_scaler ''chrome'' ''latest''" "- 1" "errorString ''selenium grid returned 503''"]
    sample_fetch_count sample_fetch_unavailable
  by simp

subsection \<open>Configuration\<close>

lemma parse_config_empty_version:
  "parseSeleniumGridScalerMetadata sample_ParseBool config_empty_version =
     Inr \<lparr>url = ''http://grid:4444/graphql'', browserName = ''chrome'', targetValue = 1,
          browserVersion = ''latest'', unsafeSsl = False, scalerIndex = 0\<rparr>"
  by (simp add: parseSeleniumGridScalerMetadata_def config_empty_version_def
      DefaultBrowserVersion_def)

text \<open>
  C10. Whenever \<^verbatim>\<open>parseSeleniumGridScalerMetadata\<close> succeeds, the browser version of the
  metadata is not empty; it is \<open>''latest''\<close> when the key \<open>browserVersion\<close> is absent and
  when it is present with an empty value.
\<close>

theorem browserVersion_never_empty:
  assumes "parseSeleniumGridScalerMetadata ParseBool config = Inr meta"
  shows "browserVersion meta \<noteq> [] \<and>
         (TriggerMetadata config ''browserVersion'' = None \<or>
          TriggerMetadata config ''browserVersion'' = Some [] \<longrightarrow>
          browserVersion meta = ''latest'')"
  using assms
  by (auto simp: parseSeleniumGridScalerMetadata_def DefaultBrowserVersion_def Let_def
      split: option.splits sum.splits if_splits)

theorem browserVersion_never_empty_witness:
  "parseSeleniumGridScalerMetadata sample_ParseBool config_empty_version =
     Inr \<lparr>url = ''http://grid:4444/graphql'', browserName = ''chrome'', targetValue = 1,
          browserVersion = ''latest'', unsafeSsl = False, scalerIndex = 0\<rparr>
   \<and> TriggerMetadata config_empty_version ''browserVersion'' = Some []
   \<and> browserVersion \<lparr>url = ''http://grid:4444/graphql'', browserName = ''chrome'',
          targetValue = 1, browserVersion = ''latest'', unsafeSsl = False,
          scalerIndex = 0 :: int64\<rparr> = ''latest''"
  using browserVersion_never_empty [OF parse_config_empty_version] parse_config_empty_version
  by (simp add: config_empty_version_def)

end
